theory Spec2Isabelle
  imports Main
begin

section \<open>FlyCamp console: connection checks, stored results and game launch\<close>

text \<open>
  The model follows \<^verbatim>\<open>static/js/console.js\<close>, which holds two near-identical scripts; the
  line numbers given below are those of the first. For the functions modelled here the
  second differs in layout and in the text of its console messages, and its card click
  handler returns early, before it resets the three flags, when the parsed id is \<^verbatim>\<open>NaN\<close>
  or \<^verbatim>\<open>0\<close>.

  The script runs on a single-threaded event loop. An \<^verbatim>\<open>async\<close> function runs until
  its next \<^verbatim>\<open>await\<close>, and a \<^verbatim>\<open>setTimeout\<close> callback runs when its timer elapses. Each such
  suspension point is a constructor of \<open>task\<close> that holds the local variables the
  continuation reads. The state holds the script's global variables, the list of
  outstanding tasks, and a log of the effects on the page and on the network in the order
  in which they happen. An \<open>event\<close> is either a handler invoked by the user or the settling
  of one outstanding task; which task settles next is the environment's choice, so timers
  of different callers may elapse in any order.

  DOM elements looked up by the script are taken to exist, and a server reply is taken to
  be a JSON object whose \<^verbatim>\<open>steps\<close>, when present, is an array of objects.
\<close>

subsection \<open>Values\<close>

text \<open>\<^verbatim>\<open>selectedGameId\<close>: \<^verbatim>\<open>null\<close> at load, then the result of \<^verbatim>\<open>parseInt\<close>.\<close>

datatype gameid = GNull | GNaN | GNum int

text \<open>\<^verbatim>\<open>controllerMode\<close>: \<^verbatim>\<open>'joystick'\<close> or \<^verbatim>\<open>'gesture'\<close>.\<close>

datatype cmode = Joystick | Gesture

text \<open>A JSON value that the script only tests for truthiness.\<close>

datatype jsval = JUndefined | JNull | JBool bool | JNum int | JStr string

fun truthy :: "jsval \<Rightarrow> bool" where
  "truthy JUndefined = False"
| "truthy JNull = False"
| "truthy (JBool b) = b"
| "truthy (JNum n) = (n \<noteq> 0)"
| "truthy (JStr s) = (s \<noteq> [])"

text \<open>\<^verbatim>\<open>x || ''\<close> and \<^verbatim>\<open>x || 'fallback'\<close> on an optional string: absent and empty are falsy.\<close>

fun or_else :: "string option \<Rightarrow> string \<Rightarrow> string" where
  "or_else None d = d"
| "or_else (Some t) d = (if t = [] then d else t)"

text \<open>\<^verbatim>\<open>selectedGameId || 1\<close>: \<^verbatim>\<open>null\<close>, \<^verbatim>\<open>NaN\<close> and \<^verbatim>\<open>0\<close> are falsy.\<close>

fun game_number :: "gameid \<Rightarrow> int" where
  "game_number GNull = 1"
| "game_number GNaN = 1"
| "game_number (GNum n) = (if n = 0 then 1 else n)"

text \<open>One entry of \<^verbatim>\<open>data.steps\<close> in the reply of \<^verbatim>\<open>/api/connection_check\<close>.\<close>

record rawstep =
  step_name :: string
  step_ok :: jsval
  step_message :: "string option"

text \<open>The reply \<^verbatim>\<open>data\<close> of \<^verbatim>\<open>/api/connection_check\<close>; \<^verbatim>\<open>steps\<close> may be missing.\<close>

record response =
  data_success :: jsval
  data_steps :: "rawstep list option"

text \<open>One entry of \<^verbatim>\<open>results\<close>, and the object kept in \<^verbatim>\<open>window.__initStoredResults\<close>.\<close>

record result =
  displayName :: string
  ok :: bool
  message :: string

record stored =
  results :: "result list"
  success :: bool

text \<open>The reply of \<^verbatim>\<open>/api/start_game\<close>.\<close>

record startreply =
  start_success :: jsval
  start_error :: "string option"

subsection \<open>Effects, tasks and state\<close>

text \<open>
  The bodies of the three POST requests: \<^verbatim>\<open>game_number\<close> for \<^verbatim>\<open>/api/connection_check\<close>,
  \<^verbatim>\<open>token_id\<close> for \<^verbatim>\<open>/write_rfid_token\<close>, and \<^verbatim>\<open>game_number\<close> with \<^verbatim>\<open>level_number\<close> for
  \<^verbatim>\<open>/api/start_game\<close>.
\<close>

datatype request =
    ConnectionCheck int
  | WriteRfidToken string
  | StartGame int int

text \<open>
  What the script does to the network and to the page: a request sent with \<^verbatim>\<open>fetch\<close>;
  \<^verbatim>\<open>clearSteps\<close>; the class \<^verbatim>\<open>hidden\<close> added to or removed from \<^verbatim>\<open>#init-error\<close>; the text of
  \<^verbatim>\<open>#init-status\<close>; \<^verbatim>\<open>addStepRow\<close> with the label of the row; \<^verbatim>\<open>markRow\<close> with the label of
  the row, the outcome and the message; \<^verbatim>\<open>closeOverlay\<close>; the overlay shown by
  \<^verbatim>\<open>openOverlay\<close>; \<^verbatim>\<open>goToPage\<close>; and the call of \<^verbatim>\<open>checkGameDone\<close>, which starts the polling
  for the end of the game (the polling itself is not modelled).
\<close>

datatype action =
    Request request
  | ClearSteps
  | HideError
  | ShowError
  | SetStatus string
  | AddStepRow string
  | MarkRow string bool string
  | CloseOverlay
  | OpenOverlay
  | GoToPage string
  | CheckGameDone

text \<open>
  The suspension points, with the local variables their continuations read.
  \<^item> \<open>CheckFetch delayStartMs skipStart\<close>: \<^verbatim>\<open>runConnectionCheckAndStart\<close> awaits the reply of
    the connectivity check (lines 506 to 511).
  \<^item> \<open>StepPause delayStartMs data ns results r\<close>: the same function, in immediate mode,
    awaits 200 ms after adding the row of entry \<open>r\<close> (line 532); \<open>ns\<close> are the names of
    \<^verbatim>\<open>order\<close> still to visit and \<open>results\<close> the entries pushed so far.
  \<^item> \<open>StartDelay delayStartMs\<close>: the same function awaits \<^verbatim>\<open>delayStartMs\<close> (line 553).
  \<^item> \<open>PersistFetch\<close>, \<open>StartFetch\<close>: a launch awaits the reply of \<^verbatim>\<open>/write_rfid_token\<close>
    (lines 362 and 556), of \<^verbatim>\<open>/api/start_game\<close> (lines 367 to 372 and 561 to 566).
  \<^item> \<open>WaitReady\<close>, \<open>MaybeStart\<close>: the timers of 150 ms and 250 ms by which \<^verbatim>\<open>waitReady\<close> and
    \<^verbatim>\<open>maybeStart\<close> call themselves again (lines 345 and 353).
  \<^item> \<open>LaunchTimer\<close>: the timer of 3000 ms set by \<^verbatim>\<open>maybeStart\<close> (lines 360 to 385).
  \<^item> \<open>ReplayMark r rest success\<close>, \<open>ReplayNext rest success\<close>: the two timers of 200 ms in
    \<^verbatim>\<open>displayNext\<close> (lines 607 to 610): the first marks the row of \<open>r\<close>, the second goes on
    with the entries \<open>rest\<close>.

  A timer settles as \<open>Elapsed\<close>. A request settles as \<open>Rejected\<close> (\<^verbatim>\<open>fetch\<close> or \<^verbatim>\<open>json()\<close>
  rejects), or with its reply: \<open>CheckData\<close> for the connectivity check, \<open>Fulfilled\<close> for
  \<^verbatim>\<open>/write_rfid_token\<close>, whose reply is not read, and \<open>StartData\<close> for \<^verbatim>\<open>/api/start_game\<close>.
\<close>

datatype task =
    CheckFetch nat bool
  | StepPause nat response "string list" "result list" result
  | StartDelay nat
  | PersistFetch
  | StartFetch
  | WaitReady
  | MaybeStart
  | LaunchTimer
  | ReplayMark result "result list" bool
  | ReplayNext "result list" bool

datatype outcome =
    Elapsed
  | Rejected
  | Fulfilled
  | CheckData response
  | StartData startreply

text \<open>
  The global variables read by the functions below, with \<^verbatim>\<open>window.__initStarted\<close>,
  \<^verbatim>\<open>window.__initReady\<close>, \<^verbatim>\<open>window.__initSuccess\<close> and \<^verbatim>\<open>window.__initStoredResults\<close>.
  \<open>cornerListener\<close> holds whether \<^verbatim>\<open>proceedAfterPreview\<close> is registered (once) on the button
  \<^verbatim>\<open>#corner-progress\<close>, and \<open>cornerEnabled\<close> whether the button takes clicks
  (\<^verbatim>\<open>pointerEvents\<close>).
\<close>

record state =
  selectedGameId :: gameid
  rfidTag :: string
  controllerMode :: cmode
  initStarted :: bool
  initReady :: bool
  initSuccess :: bool
  initStoredResults :: "stored option"
  cornerListener :: bool
  cornerEnabled :: bool
  pending :: "task list"
  log :: "action list"

definition init :: state where
  "init = \<lparr> selectedGameId = GNull, rfidTag = [], controllerMode = Joystick,
            initStarted = False, initReady = False, initSuccess = False,
            initStoredResults = None, cornerListener = False, cornerEnabled = False,
            pending = [], log = [] \<rparr>"

definition emit :: "action \<Rightarrow> state \<Rightarrow> state" where
  "emit a s = s\<lparr>log := log s @ [a]\<rparr>"

definition spawn :: "task \<Rightarrow> state \<Rightarrow> state" where
  "spawn t s = s\<lparr>pending := t # pending s\<rparr>"

subsection \<open>The launch sequence\<close>

text \<open>
  The \<^verbatim>\<open>try\<close> block that persists the token and starts the game occurs twice with the same
  statements: in the timer callback of \<^verbatim>\<open>maybeStart\<close> and at the end of
  \<^verbatim>\<open>runConnectionCheckAndStart\<close>.
\<close>

definition begin_launch :: "state \<Rightarrow> state" where
  "begin_launch s = spawn PersistFetch (emit (Request (WriteRfidToken (rfidTag s))) s)"

definition launch_catch :: "state \<Rightarrow> state" where
  "launch_catch s = emit ShowError (emit (SetStatus ''Unexpected error during start.'') s)"

definition request_start :: "state \<Rightarrow> state" where
  "request_start s =
     spawn StartFetch (emit (Request (StartGame (game_number (selectedGameId s)) 1)) s)"

definition on_start_reply :: "startreply \<Rightarrow> state \<Rightarrow> state" where
  "on_start_reply d s =
     (if \<not> truthy (start_success d)
      then emit ShowError
             (emit (SetStatus (or_else (start_error d) ''Failed to launch the game.'')) s)
      else emit CheckGameDone (emit (SetStatus ''Game started. Good luck!'') s))"

subsection \<open>runConnectionCheckAndStart\<close>

definition base :: "string list" where
  "base = [''Joystick/Gesture'', ''Nodes'', ''Car'', ''Drone'']"

definition order :: "gameid \<Rightarrow> string list" where
  "order g = (if g = GNum 2 then base else filter (\<lambda>n. n \<noteq> ''Car'') base)"

definition find_step :: "response \<Rightarrow> string \<Rightarrow> rawstep option" where
  "find_step data n =
     find (\<lambda>st. step_name st = n) (case data_steps data of None \<Rightarrow> [] | Some ss \<Rightarrow> ss)"

definition label :: "cmode \<Rightarrow> string \<Rightarrow> rawstep \<Rightarrow> string" where
  "label m n st =
     (if n = ''Joystick/Gesture''
      then (if m = Joystick then ''Joystick Controller'' else ''Hand Gesture Controller'')
      else step_name st)"

definition mk_result :: "cmode \<Rightarrow> string \<Rightarrow> rawstep \<Rightarrow> result" where
  "mk_result m n st =
     \<lparr> displayName = label m n st, ok = truthy (step_ok st),
       message = or_else (step_message st) [] \<rparr>"

text \<open>The synchronous part up to the first \<^verbatim>\<open>await\<close>.\<close>

definition runConnectionCheckAndStart :: "nat \<Rightarrow> bool \<Rightarrow> state \<Rightarrow> state" where
  "runConnectionCheckAndStart delayStartMs skipStart s =
     spawn (CheckFetch delayStartMs skipStart)
       (emit (Request (ConnectionCheck (game_number (selectedGameId s))))
         (emit (SetStatus ''Running connection checks...'')
           (emit HideError (emit ClearSteps s))))"

text \<open>From the assignment of \<^verbatim>\<open>window.__initStoredResults\<close> to the start of the launch.\<close>

definition finish :: "nat \<Rightarrow> bool \<Rightarrow> response \<Rightarrow> result list \<Rightarrow> state \<Rightarrow> state" where
  "finish delayStartMs skipStart data rs s =
     (let s1 = s\<lparr> initStoredResults :=
                    Some \<lparr> results = rs, success = truthy (data_success data) \<rparr>,
                  initReady := True,
                  initSuccess := truthy (data_success data) \<rparr>
      in if skipStart then s1
         else if \<not> truthy (data_success data)
         then emit ShowError (emit (SetStatus ''Initialisation failed.'') s1)
         else (let s2 = emit (SetStatus ''Connection OK. Preparing game...'') s1
               in if delayStartMs > 0 then spawn (StartDelay delayStartMs) s2
                  else begin_launch s2))"

text \<open>
  The \<^verbatim>\<open>for\<close> loop over \<^verbatim>\<open>order\<close>. With \<^verbatim>\<open>skipStart\<close> it runs to its end at once; otherwise
  it suspends for 200 ms after each row it adds.
\<close>

fun check_loop ::
  "nat \<Rightarrow> bool \<Rightarrow> response \<Rightarrow> string list \<Rightarrow> result list \<Rightarrow> state \<Rightarrow> state" where
  "check_loop d skip data [] rs s = finish d skip data rs s"
| "check_loop d skip data (n # ns) rs s =
     (case find_step data n of
        None \<Rightarrow> check_loop d skip data ns rs s
      | Some st \<Rightarrow>
          (let r = mk_result (controllerMode s) n st
           in if skip then check_loop d skip data ns (rs @ [r]) s
              else spawn (StepPause d data ns (rs @ [r]) r)
                     (emit (AddStepRow (displayName r)) s)))"

definition on_check_reply :: "nat \<Rightarrow> bool \<Rightarrow> response \<Rightarrow> state \<Rightarrow> state" where
  "on_check_reply d skip data s = check_loop d skip data (order (selectedGameId s)) [] s"

definition on_step_pause ::
  "nat \<Rightarrow> response \<Rightarrow> string list \<Rightarrow> result list \<Rightarrow> result \<Rightarrow> state \<Rightarrow> state" where
  "on_step_pause d data ns rs r s =
     check_loop d False data ns rs (emit (MarkRow (displayName r) (ok r) (message r)) s)"

definition init_catch :: "state \<Rightarrow> state" where
  "init_catch s =
     emit ShowError (emit (SetStatus ''Unexpected error during initialisation.'') s)"

subsection \<open>showStoredInitResultsSequentially\<close>

fun displayNext :: "result list \<Rightarrow> bool \<Rightarrow> state \<Rightarrow> state" where
  "displayNext [] succ s =
     (if \<not> succ then emit ShowError (emit (SetStatus ''Initialisation failed.'') s)
      else emit (SetStatus ''Connection OK. Preparing game...'') s)"
| "displayNext (r # rest) succ s =
     spawn (ReplayMark r rest succ) (emit (AddStepRow (displayName r)) s)"

definition showStoredInitResultsSequentially :: "state \<Rightarrow> state" where
  "showStoredInitResultsSequentially s =
     (case initStoredResults s of
        None \<Rightarrow> s
      | Some st \<Rightarrow>
          displayNext (results st) (success st)
            (emit (SetStatus ''Running connection checks...'')
              (emit HideError (emit ClearSteps s))))"

subsection \<open>The preview overlay\<close>

definition openOverlay :: "state \<Rightarrow> state" where
  "openOverlay s =
     (let s1 = emit OpenOverlay (s\<lparr>cornerEnabled := False\<rparr>)
      in if \<not> initStarted s1
         then runConnectionCheckAndStart 0 True
                (s1\<lparr>initStarted := True, initReady := False, initSuccess := False\<rparr>)
         else s1)"

definition waitReady :: "state \<Rightarrow> state" where
  "waitReady s =
     (if \<not> initReady s then spawn WaitReady s else showStoredInitResultsSequentially s)"

definition maybeStart :: "state \<Rightarrow> state" where
  "maybeStart s =
     (if \<not> initReady s then spawn MaybeStart s
      else if \<not> initSuccess s then s
      else spawn LaunchTimer s)"

definition proceedAfterPreview :: "state \<Rightarrow> state" where
  "proceedAfterPreview s =
     maybeStart (waitReady (emit (GoToPage ''page_initializing'') (emit CloseOverlay s)))"

definition retryConnectionCheck :: "state \<Rightarrow> state" where
  "retryConnectionCheck s =
     runConnectionCheckAndStart 3000 False
       ((emit HideError s)\<lparr>initStarted := False, initReady := False, initSuccess := False\<rparr>)"

definition cardClick :: "gameid \<Rightarrow> state \<Rightarrow> state" where
  "cardClick g s =
     (emit (GoToPage ''page_confirm'') (s\<lparr>selectedGameId := g\<rparr>))
       \<lparr>initStarted := False, initReady := False, initSuccess := False\<rparr>"

text \<open>
  The click on the controller toggle. Besides switching the mode, the script rewrites the
  two controller labels in the text that is visible at the time of the click; the log
  records a row with the text it is created with.
\<close>

definition toggleController :: "state \<Rightarrow> state" where
  "toggleController s =
     s\<lparr>controllerMode := (if controllerMode s = Joystick then Gesture else Joystick)\<rparr>"

subsection \<open>The event loop\<close>

text \<open>The continuation of a task for the way it settled; \<open>None\<close> when the two do not fit.\<close>

fun resume :: "task \<Rightarrow> outcome \<Rightarrow> state \<Rightarrow> state option" where
  "resume (CheckFetch d skip) (CheckData data) s = Some (on_check_reply d skip data s)"
| "resume (CheckFetch d skip) Rejected s = Some (init_catch s)"
| "resume (StepPause d data ns rs r) Elapsed s = Some (on_step_pause d data ns rs r s)"
| "resume (StartDelay d) Elapsed s = Some (begin_launch s)"
| "resume PersistFetch Fulfilled s = Some (request_start s)"
| "resume PersistFetch Rejected s = Some (launch_catch s)"
| "resume StartFetch (StartData d) s = Some (on_start_reply d s)"
| "resume StartFetch Rejected s = Some (launch_catch s)"
| "resume WaitReady Elapsed s = Some (waitReady s)"
| "resume MaybeStart Elapsed s = Some (maybeStart s)"
| "resume LaunchTimer Elapsed s = Some (begin_launch s)"
| "resume (ReplayMark r rest succ) Elapsed s =
     Some (spawn (ReplayNext rest succ)
             (emit (MarkRow (displayName r) (ok r) (message r)) s))"
| "resume (ReplayNext rest succ) Elapsed s = Some (displayNext rest succ s)"
| "resume _ _ s = None"

text \<open>
  The task at position \<open>i\<close> settles: it leaves the outstanding tasks and its continuation
  runs. Nothing happens when there is no such task or when it cannot settle that way.
\<close>

definition settle :: "nat \<Rightarrow> outcome \<Rightarrow> state \<Rightarrow> state" where
  "settle i out s =
     (if i < length (pending s)
      then (case resume (pending s ! i) out
                     (s\<lparr>pending := take i (pending s) @ drop (Suc i) (pending s)\<rparr>) of
              None \<Rightarrow> s
            | Some s' \<Rightarrow> s')
      else s)"

text \<open>
  The events: a token read by the scan poll (\<^verbatim>\<open>rfidTag = d.token_id\<close>), a click on a game card
  with the parsed \<^verbatim>\<open>data-game-id\<close>, a click on the confirm button (\<^verbatim>\<open>openOverlay\<close>), the
  end of the preview video, a click on the progress button, a click on retry
  (\<^verbatim>\<open>retryConnectionCheck\<close>), a click on the controller toggle, and the settling of the
  outstanding task at a position. Which page is visible is not modelled: any handler may
  be invoked in any state.
\<close>

datatype event =
    TokenScan string
  | CardClick gameid
  | ConfirmClick
  | VideoEnded
  | CornerClick
  | RetryClick
  | ToggleClick
  | Settle nat outcome

fun step :: "event \<Rightarrow> state \<Rightarrow> state" where
  "step (TokenScan tag) s = s\<lparr>rfidTag := tag\<rparr>"
| "step (CardClick g) s = cardClick g s"
| "step ConfirmClick s = openOverlay s"
| "step VideoEnded s = s\<lparr>cornerEnabled := True, cornerListener := True\<rparr>"
| "step CornerClick s =
     (if cornerEnabled s \<and> cornerListener s
      then proceedAfterPreview (s\<lparr>cornerListener := False\<rparr>) else s)"
| "step RetryClick s = retryConnectionCheck s"
| "step ToggleClick s = toggleController s"
| "step (Settle i out) s = settle i out s"

fun run :: "event list \<Rightarrow> state \<Rightarrow> state" where
  "run [] s = s"
| "run (e # es) s = run es (step e s)"

subsection \<open>Notions used to state the results\<close>

text \<open>
  The functions of this subsection are not part of the script. \<open>collect\<close> lists, for the names of a
  display order, the entries the loop body builds for the names the reply contains;
  \<open>rows\<close> lists the row actions (add the row, then mark it) for a list of entries.
  The lemmas \<open>check_loop_deferred\<close> and \<open>check_loop_immediate\<close> below relate the loop of the
  script to them.
\<close>

definition collect :: "cmode \<Rightarrow> response \<Rightarrow> string list \<Rightarrow> result list" where
  "collect m data ns =
     List.map_filter (\<lambda>n. map_option (mk_result m n) (find_step data n)) ns"

definition rows :: "result list \<Rightarrow> action list" where
  "rows rs =
     concat (map (\<lambda>r. [AddStepRow (displayName r),
                         MarkRow (displayName r) (ok r) (message r)]) rs)"

text \<open>
  \<open>launches\<close> counts the launch sequences begun so far: each begins with the request that
  persists the token. \<open>may_launch\<close> marks the outstanding tasks whose continuation can
  still begin a launch sequence, and \<open>credit\<close> adds the two. \<open>starts_launch_path\<close> marks the
  two user actions that set such a task up: proceeding after the preview and retrying.
\<close>

definition launches :: "state \<Rightarrow> nat" where
  "launches s = length [t. Request (WriteRfidToken t) \<leftarrow> log s]"

fun may_launch :: "task \<Rightarrow> nat" where
  "may_launch (CheckFetch d skip) = (if skip then 0 else 1)"
| "may_launch (StepPause d data ns rs r) = 1"
| "may_launch (StartDelay d) = 1"
| "may_launch MaybeStart = 1"
| "may_launch LaunchTimer = 1"
| "may_launch _ = 0"

definition credit :: "state \<Rightarrow> nat" where
  "credit s = launches s + sum_list (map may_launch (pending s))"

fun starts_launch_path :: "event \<Rightarrow> bool" where
  "starts_launch_path CornerClick = True"
| "starts_launch_path RetryClick = True"
| "starts_launch_path _ = False"

subsection \<open>Replies used in the examples\<close>

text \<open>
  Three replies of \<^verbatim>\<open>/api/connection_check\<close>: all four steps pass; the vehicle step fails
  and the server reports failure; the reply has no vehicle step.
\<close>

definition reply_all_ok :: response where
  "reply_all_ok = \<lparr> data_success = JBool True, data_steps = Some [
      \<lparr>step_name = ''Joystick/Gesture'', step_ok = JBool True, step_message = None\<rparr>,
      \<lparr>step_name = ''Nodes'', step_ok = JBool True, step_message = None\<rparr>,
      \<lparr>step_name = ''Car'', step_ok = JBool True, step_message = None\<rparr>,
      \<lparr>step_name = ''Drone'', step_ok = JBool True, step_message = None\<rparr>] \<rparr>"

definition reply_car_failed :: response where
  "reply_car_failed = \<lparr> data_success = JBool False, data_steps = Some [
      \<lparr>step_name = ''Joystick/Gesture'', step_ok = JBool True, step_message = None\<rparr>,
      \<lparr>step_name = ''Nodes'', step_ok = JBool True, step_message = None\<rparr>,
      \<lparr>step_name = ''Car'', step_ok = JBool False, step_message = Some ''timeout''\<rparr>,
      \<lparr>step_name = ''Drone'', step_ok = JBool True, step_message = None\<rparr>] \<rparr>"

definition reply_without_car :: response where
  "reply_without_car = \<lparr> data_success = JBool True, data_steps = Some [
      \<lparr>step_name = ''Joystick/Gesture'', step_ok = JBool True, step_message = None\<rparr>,
      \<lparr>step_name = ''Nodes'', step_ok = JBool True, step_message = None\<rparr>,
      \<lparr>step_name = ''Drone'', step_ok = JBool True, step_message = None\<rparr>] \<rparr>"

text \<open>
  A session in which the first check fails on the network and the user retries. Times are
  in milliseconds after the click that proceeds from the preview; \<^verbatim>\<open>waitReady\<close> polls every
  150 and \<^verbatim>\<open>maybeStart\<close> every 250.
  \<^item> Before: the token is scanned, game 1 is chosen and confirmed, the background check
    rejects, the preview ends.
  \<^item> 0: the click; both loops start polling (150, 250, 300).
  \<^item> 400: the retry; 440: its reply, all steps ok; the first row is shown.
  \<^item> 450 to 1040: the loops poll (450, 500, 600, 750, 750, 900, 1000) between the three
    pauses of the rows (640, 840, 1040); at 1040 the result is stored and the retry
    waits 3000.
  \<^item> 1050: \<^verbatim>\<open>waitReady\<close> sees the result and starts the replay; 1250: \<^verbatim>\<open>maybeStart\<close> sees it
    and sets its own timer of 3000; 1250 to 2250: the replay shows its three rows.
  \<^item> 4040: the retry's wait ends; it persists the token and starts the game.
  \<^item> 4250: the timer of \<^verbatim>\<open>maybeStart\<close> ends; it persists the token and starts the game.
\<close>

definition start_ok :: startreply where
  "start_ok = \<lparr>start_success = JBool True, start_error = None\<rparr>"

definition double_launch_trace :: "event list" where
  "double_launch_trace =
     [TokenScan ''T42'', CardClick (GNum 1), ConfirmClick, Settle 0 Rejected, VideoEnded,
      CornerClick, Settle 1 Elapsed, Settle 1 Elapsed, Settle 1 Elapsed,
      RetryClick, Settle 0 (CheckData reply_all_ok),
      Settle 1 Elapsed, Settle 2 Elapsed, Settle 1 Elapsed, Settle 2 Elapsed,
      Settle 1 Elapsed, Settle 2 Elapsed, Settle 2 Elapsed,
      Settle 2 Elapsed, Settle 2 Elapsed, Settle 2 Elapsed,
      Settle 2 Elapsed, Settle 2 Elapsed,
      Settle 1 Elapsed, Settle 0 Elapsed, Settle 0 Elapsed, Settle 0 Elapsed,
      Settle 0 Elapsed, Settle 0 Elapsed,
      Settle 1 Elapsed, Settle 0 Fulfilled, Settle 0 (StartData start_ok),
      Settle 0 Elapsed, Settle 0 Fulfilled, Settle 0 (StartData start_ok)]"

section \<open>Basic facts\<close>

lemma emit_sel [simp]:
  "log (emit a s) = log s @ [a]"
  "pending (emit a s) = pending s"
  "selectedGameId (emit a s) = selectedGameId s"
  "rfidTag (emit a s) = rfidTag s"
  "controllerMode (emit a s) = controllerMode s"
  "initStarted (emit a s) = initStarted s"
  "initReady (emit a s) = initReady s"
  "initSuccess (emit a s) = initSuccess s"
  "initStoredResults (emit a s) = initStoredResults s"
  "cornerListener (emit a s) = cornerListener s"
  "cornerEnabled (emit a s) = cornerEnabled s"
  by (simp_all add: emit_def)

lemma spawn_sel [simp]:
  "log (spawn t s) = log s"
  "pending (spawn t s) = t # pending s"
  "selectedGameId (spawn t s) = selectedGameId s"
  "rfidTag (spawn t s) = rfidTag s"
  "controllerMode (spawn t s) = controllerMode s"
  "initStarted (spawn t s) = initStarted s"
  "initReady (spawn t s) = initReady s"
  "initSuccess (spawn t s) = initSuccess s"
  "initStoredResults (spawn t s) = initStoredResults s"
  "cornerListener (spawn t s) = cornerListener s"
  "cornerEnabled (spawn t s) = cornerEnabled s"
  by (simp_all add: spawn_def)

text \<open>Settling the task that was spawned last resumes it in the state before the spawn.\<close>

lemma settle_spawn [simp]:
  "settle 0 out (spawn t s) = (case resume t out s of None \<Rightarrow> spawn t s | Some s' \<Rightarrow> s')"
  by (simp add: settle_def spawn_def split: option.splits)

lemma run_append [simp]: "run (es @ fs) s = run fs (run es s)"
  by (induction es arbitrary: s) simp_all

section \<open>The check loop and the replay, run without interleaved events\<close>

lemma collect_simps [simp]:
  "collect m data [] = []"
  "collect m data (n # ns) =
     (case find_step data n of None \<Rightarrow> collect m data ns
      | Some st \<Rightarrow> mk_result m n st # collect m data ns)"
  by (simp_all add: collect_def List.map_filter_simps split: option.splits)

lemma rows_simps [simp]:
  "rows [] = []"
  "rows (r # rs) =
     AddStepRow (displayName r) # MarkRow (displayName r) (ok r) (message r) # rows rs"
  by (simp_all add: rows_def)

lemma rows_append [simp]: "rows (xs @ ys) = rows xs @ rows ys"
  by (simp add: rows_def)

lemma begin_launch_sel [simp]:
  "initStarted (begin_launch s) = initStarted s"
  "initReady (begin_launch s) = initReady s"
  "initSuccess (begin_launch s) = initSuccess s"
  "initStoredResults (begin_launch s) = initStoredResults s"
  "controllerMode (begin_launch s) = controllerMode s"
  "selectedGameId (begin_launch s) = selectedGameId s"
  by (simp_all add: begin_launch_def)

lemma finish_sel [simp]:
  "initStarted (finish d skip data rs s) = initStarted s"
  "initReady (finish d skip data rs s) = True"
  "initSuccess (finish d skip data rs s) = truthy (data_success data)"
  "initStoredResults (finish d skip data rs s) =
     Some \<lparr> results = rs, success = truthy (data_success data) \<rparr>"
  "controllerMode (finish d skip data rs s) = controllerMode s"
  "selectedGameId (finish d skip data rs s) = selectedGameId s"
  by (simp_all add: finish_def Let_def)

lemma check_loop_deferred:
  "check_loop d True data ns rs s =
   finish d True data (rs @ collect (controllerMode s) data ns) s"
  by (induction ns arbitrary: rs) (simp_all split: option.splits)

lemma check_loop_immediate:
  "run (replicate (length (collect (controllerMode s) data ns)) (Settle 0 Elapsed))
     (check_loop d False data ns rs s) =
   finish d False data (rs @ collect (controllerMode s) data ns)
     (s\<lparr>log := log s @ rows (collect (controllerMode s) data ns)\<rparr>)"
proof (induction ns arbitrary: rs s)
  case Nil
  then show ?case by simp
next
  case (Cons n ns)
  show ?case
  proof (cases "find_step data n")
    case None
    then show ?thesis using Cons.IH [where rs = rs and s = s] by simp
  next
    case (Some st)
    let ?r = "mk_result (controllerMode s) n st"
    let ?s1 = "emit (MarkRow (displayName ?r) (ok ?r) (message ?r))
                 (emit (AddStepRow (displayName ?r)) s)"
    have "run (replicate (length (collect (controllerMode s) data (n # ns))) (Settle 0 Elapsed))
            (check_loop d False data (n # ns) rs s) =
          run (replicate (length (collect (controllerMode s) data ns)) (Settle 0 Elapsed))
            (check_loop d False data ns (rs @ [?r]) ?s1)"
      using Some by (simp add: on_step_pause_def Let_def)
    also have "\<dots> = finish d False data ((rs @ [?r]) @ collect (controllerMode s) data ns)
        (?s1\<lparr>log := log ?s1 @ rows (collect (controllerMode s) data ns)\<rparr>)"
      using Cons.IH [where rs = "rs @ [?r]" and s = ?s1] by simp
    also have "\<dots> = finish d False data (rs @ collect (controllerMode s) data (n # ns))
        (s\<lparr>log := log s @ rows (collect (controllerMode s) data (n # ns))\<rparr>)"
      using Some by (simp add: emit_def)
    finally show ?thesis .
  qed
qed

text \<open>One check cycle without interleaved events, from the request to the stored result.\<close>

lemma check_cycle:
  "run (Settle 0 (CheckData data) #
        replicate (if skip then 0
                   else length (collect (controllerMode s) data (order (selectedGameId s))))
          (Settle 0 Elapsed))
     (runConnectionCheckAndStart d skip s) =
   finish d skip data (collect (controllerMode s) data (order (selectedGameId s)))
     (s\<lparr>log := log s @ [ClearSteps, HideError, SetStatus ''Running connection checks...'',
                          Request (ConnectionCheck (game_number (selectedGameId s)))] @
                 (if skip then []
                  else rows (collect (controllerMode s) data (order (selectedGameId s))))\<rparr>)"
proof -
  let ?s0 = "emit (Request (ConnectionCheck (game_number (selectedGameId s))))
               (emit (SetStatus ''Running connection checks...'')
                 (emit HideError (emit ClearSteps s)))"
  have s0: "?s0 = s\<lparr>log := log s @ [ClearSteps, HideError,
               SetStatus ''Running connection checks...'',
               Request (ConnectionCheck (game_number (selectedGameId s)))]\<rparr>"
    by (simp add: emit_def)
  show ?thesis
  proof (cases skip)
    case True
    then show ?thesis
      using check_loop_deferred [of d data "order (selectedGameId s)" "[]" ?s0]
      by (simp add: runConnectionCheckAndStart_def on_check_reply_def s0)
  next
    case False
    then show ?thesis
      using check_loop_immediate [of ?s0 data "order (selectedGameId s)" d "[]"]
      by (simp add: runConnectionCheckAndStart_def on_check_reply_def s0)
  qed
qed

lemma displayNext_run:
  "run (replicate (2 * length rs) (Settle 0 Elapsed)) (displayNext rs succ s) =
   displayNext [] succ (s\<lparr>log := log s @ rows rs\<rparr>)"
proof (induction rs arbitrary: s)
  case Nil
  then show ?case by simp
next
  case (Cons r rs)
  let ?s1 = "emit (MarkRow (displayName r) (ok r) (message r))
               (emit (AddStepRow (displayName r)) s)"
  have "run (replicate (2 * length (r # rs)) (Settle 0 Elapsed)) (displayNext (r # rs) succ s) =
        run (replicate (2 * length rs) (Settle 0 Elapsed)) (displayNext rs succ ?s1)"
    by simp
  also have "\<dots> = displayNext [] succ (?s1\<lparr>log := log ?s1 @ rows rs\<rparr>)"
    using Cons.IH [of ?s1] .
  also have "\<dots> = displayNext [] succ (s\<lparr>log := log s @ rows (r # rs)\<rparr>)"
    by (simp add: emit_def)
  finally show ?case .
qed

lemma find_step_Some_iff:
  "(find_step data n \<noteq> None) =
   (n \<in> set (map step_name (case data_steps data of None \<Rightarrow> [] | Some ss \<Rightarrow> ss)))"
  by (auto simp add: find_step_def find_None_iff)

lemma find_step_name: "find_step data n = Some st \<Longrightarrow> step_name st = n"
  by (auto simp add: find_step_def find_Some_iff)

lemma car_in_collect:
  "(''Car'' \<in> set (map displayName (collect m data (order g)))) =
   (g = GNum 2 \<and> find_step data ''Car'' \<noteq> None)"
  by (auto simp add: order_def base_def mk_result_def label_def
        split: option.splits dest: find_step_name)

section \<open>The launch sequence\<close>

text \<open>
  Claim C7. The launch sequence first sends the request that persists the current token
  identifier. Only when that request has completed does it send the start request, which
  carries the selected game and level 1. When the reply to the start request reports
  failure, the error text of the reply (or a fixed fallback) is shown with the error banner
  and nothing further is scheduled: the outstanding tasks are those from before the launch.
  When the reply reports success, the status line is set and completion polling is started.
  When either request rejects, an error is shown and the sequence stops as well; if it is
  the first, the start request is never sent.
\<close>

theorem launch_sequence_in_order:
  assumes "selectedGameId s = GNum n" and "n \<noteq> 0"
  shows "log (begin_launch s) = log s @ [Request (WriteRfidToken (rfidTag s))] \<and>
         pending (begin_launch s) = PersistFetch # pending s \<and>
         log (settle 0 Fulfilled (begin_launch s)) =
           log s @ [Request (WriteRfidToken (rfidTag s)), Request (StartGame n 1)] \<and>
         pending (settle 0 Fulfilled (begin_launch s)) = StartFetch # pending s \<and>
         log (settle 0 (StartData d) (settle 0 Fulfilled (begin_launch s))) =
           log s @ [Request (WriteRfidToken (rfidTag s)), Request (StartGame n 1)] @
             (if truthy (start_success d)
              then [SetStatus ''Game started. Good luck!'', CheckGameDone]
              else [SetStatus (or_else (start_error d) ''Failed to launch the game.''),
                    ShowError]) \<and>
         pending (settle 0 (StartData d) (settle 0 Fulfilled (begin_launch s))) = pending s \<and>
         log (settle 0 Rejected (begin_launch s)) =
           log s @ [Request (WriteRfidToken (rfidTag s)),
                    SetStatus ''Unexpected error during start.'', ShowError] \<and>
         pending (settle 0 Rejected (begin_launch s)) = pending s \<and>
         log (settle 0 Rejected (settle 0 Fulfilled (begin_launch s))) =
           log s @ [Request (WriteRfidToken (rfidTag s)), Request (StartGame n 1),
                    SetStatus ''Unexpected error during start.'', ShowError] \<and>
         pending (settle 0 Rejected (settle 0 Fulfilled (begin_launch s))) = pending s"
  using assms
  by (simp add: begin_launch_def request_start_def on_start_reply_def launch_catch_def)

theorem launch_sequence_in_order_witness:
  "selectedGameId (cardClick (GNum 3) init) = GNum 3 \<and> (3::int) \<noteq> 0 \<and>
   log (settle 0 (StartData \<lparr>start_success = JBool False, start_error = None\<rparr>)
          (settle 0 Fulfilled (begin_launch (cardClick (GNum 3) init)))) =
     [GoToPage ''page_confirm'', Request (WriteRfidToken []), Request (StartGame 3 1),
      SetStatus ''Failed to launch the game.'', ShowError]"
  using launch_sequence_in_order [of "cardClick (GNum 3) init" 3
          "\<lparr>start_success = JBool False, start_error = None\<rparr>"]
  by (simp add: cardClick_def init_def)

text \<open>
  Claim C9. When \<^verbatim>\<open>selectedGameId\<close> is \<^verbatim>\<open>null\<close>, \<^verbatim>\<open>NaN\<close> or \<^verbatim>\<open>0\<close>, the connectivity-check
  request and the start-game request both carry game number 1.
\<close>

theorem falsy_game_id_requests_game_one:
  assumes "selectedGameId s = GNull \<or> selectedGameId s = GNaN \<or> selectedGameId s = GNum 0"
  shows "log (runConnectionCheckAndStart d skip s) =
           log s @ [ClearSteps, HideError, SetStatus ''Running connection checks...'',
                    Request (ConnectionCheck 1)] \<and>
         log (request_start s) = log s @ [Request (StartGame 1 1)]"
  using assms by (auto simp add: runConnectionCheckAndStart_def request_start_def)

theorem falsy_game_id_requests_game_one_witness:
  "selectedGameId init = GNull \<and>
   log (runConnectionCheckAndStart 0 True init) =
     [ClearSteps, HideError, SetStatus ''Running connection checks...'',
      Request (ConnectionCheck 1)] \<and>
   log (request_start init) = [Request (StartGame 1 1)]"
  using falsy_game_id_requests_game_one [of init 0 True] by (simp add: init_def)

section \<open>Retry\<close>

text \<open>
  Claim C8. A retry sets \<^verbatim>\<open>__initStarted\<close>, \<^verbatim>\<open>__initReady\<close> and \<^verbatim>\<open>__initSuccess\<close> to false
  and then issues the connectivity check: at the point where the check request has been
  sent and the script waits for the reply, all three flags are false. Issuing the check
  does not touch the flags, so they were false before the request was sent.
\<close>

theorem retry_resets_all_flags:
  "\<not> initStarted (step RetryClick s) \<and> \<not> initReady (step RetryClick s) \<and>
   \<not> initSuccess (step RetryClick s) \<and>
   pending (step RetryClick s) = CheckFetch 3000 False # pending s \<and>
   log (step RetryClick s) =
     log s @ [HideError, ClearSteps, HideError, SetStatus ''Running connection checks...'',
              Request (ConnectionCheck (game_number (selectedGameId s)))] \<and>
   initStarted (runConnectionCheckAndStart d skip s) = initStarted s \<and>
   initReady (runConnectionCheckAndStart d skip s) = initReady s \<and>
   initSuccess (runConnectionCheckAndStart d skip s) = initSuccess s"
  by (simp add: retryConnectionCheck_def runConnectionCheckAndStart_def)

section \<open>The stored result\<close>

text \<open>
  Claim C2, as stated, fails: game 1 is selected and the server reports failure because the
  vehicle step failed. The vehicle step is filtered out, every stored step is ok, and the
  stored \<^verbatim>\<open>success\<close> is false.
\<close>

theorem stored_success_is_reply_success_cex:
  "initStoredResults
     (run [CardClick (GNum 1), ConfirmClick, Settle 0 (CheckData reply_car_failed)] init) =
   Some \<lparr> results = [\<lparr>displayName = ''Joystick Controller'', ok = True, message = []\<rparr>,
                      \<lparr>displayName = ''Nodes'', ok = True, message = []\<rparr>,
                      \<lparr>displayName = ''Drone'', ok = True, message = []\<rparr>],
          success = False \<rparr>"
  by code_simp

text \<open>
  Claim C2, amended. For every check cycle whose reply arrives, in either mode, the stored
  \<^verbatim>\<open>success\<close> and \<^verbatim>\<open>__initSuccess\<close> are the truthiness of the \<^verbatim>\<open>success\<close> field of
  the reply, whatever the \<^verbatim>\<open>ok\<close> values of the stored steps are, and \<^verbatim>\<open>__initReady\<close> is
  true. In particular, with an empty step list, the stored \<^verbatim>\<open>success\<close> is true only if the
  reply reports success.
\<close>

theorem stored_success_is_reply_success:
  "initStoredResults
     (run (Settle 0 (CheckData data) #
           replicate (if skip then 0
                      else length (collect (controllerMode s) data (order (selectedGameId s))))
             (Settle 0 Elapsed))
        (runConnectionCheckAndStart d skip s)) =
     Some \<lparr> results = collect (controllerMode s) data (order (selectedGameId s)),
            success = truthy (data_success data) \<rparr> \<and>
   initSuccess
     (run (Settle 0 (CheckData data) #
           replicate (if skip then 0
                      else length (collect (controllerMode s) data (order (selectedGameId s))))
             (Settle 0 Elapsed))
        (runConnectionCheckAndStart d skip s)) = truthy (data_success data) \<and>
   initReady
     (run (Settle 0 (CheckData data) #
           replicate (if skip then 0
                      else length (collect (controllerMode s) data (order (selectedGameId s))))
             (Settle 0 Elapsed))
        (runConnectionCheckAndStart d skip s))"
  by (simp only: check_cycle finish_sel simp_thms)

text \<open>
  Claim C5, as stated, fails: game 2 is selected and the reply has no vehicle step; the
  stored step list then has no vehicle step either.
\<close>

theorem car_step_needs_reply_cex:
  "selectedGameId
     (run [CardClick (GNum 2), ConfirmClick, Settle 0 (CheckData reply_without_car)] init) =
     GNum 2 \<and>
   initStoredResults
     (run [CardClick (GNum 2), ConfirmClick, Settle 0 (CheckData reply_without_car)] init) =
   Some \<lparr> results = [\<lparr>displayName = ''Joystick Controller'', ok = True, message = []\<rparr>,
                      \<lparr>displayName = ''Nodes'', ok = True, message = []\<rparr>,
                      \<lparr>displayName = ''Drone'', ok = True, message = []\<rparr>],
          success = True \<rparr>"
  by code_simp

text \<open>
  Claim C5, amended. The stored step list contains the vehicle step (\<^verbatim>\<open>Car\<close>) if and only
  if the selected game is game 2 and the reply contains a step named \<^verbatim>\<open>Car\<close>; for every
  other game it is left out whatever the reply contains. The display order of names
  contains \<^verbatim>\<open>Car\<close> if and only if the selected game is game 2.
\<close>

theorem car_step_iff_game_two_and_reply:
  "map_option results
     (initStoredResults
       (run (Settle 0 (CheckData data) #
             replicate (if skip then 0
                        else length (collect (controllerMode s) data (order (selectedGameId s))))
               (Settle 0 Elapsed))
          (runConnectionCheckAndStart d skip s))) =
     Some (collect (controllerMode s) data (order (selectedGameId s))) \<and>
   (''Car'' \<in> set (map displayName (collect (controllerMode s) data (order (selectedGameId s)))))
     = (selectedGameId s = GNum 2 \<and>
        ''Car'' \<in> set (map step_name (case data_steps data of None \<Rightarrow> [] | Some ss \<Rightarrow> ss))) \<and>
   (''Car'' \<in> set (order (selectedGameId s))) = (selectedGameId s = GNum 2)"
proof -
  have "(''Car'' \<in> set (order (selectedGameId s))) = (selectedGameId s = GNum 2)"
    by (simp add: order_def base_def)
  then show ?thesis
    by (simp only: check_cycle finish_sel car_in_collect find_step_Some_iff) simp
qed

section \<open>The label of the controller step\<close>

text \<open>
  Claim C4, as stated, fails: the check completes in joystick mode, the controller mode is
  then toggled to gesture, and the replay started afterwards reveals the row
  \<^verbatim>\<open>Joystick Controller\<close>.
\<close>

theorem controller_label_fixed_at_check_cex:
  "controllerMode
     (run [CardClick (GNum 1), ConfirmClick, Settle 0 (CheckData reply_all_ok), ToggleClick,
           VideoEnded, CornerClick] init) = Gesture \<and>
   log (run [CardClick (GNum 1), ConfirmClick, Settle 0 (CheckData reply_all_ok), ToggleClick,
             VideoEnded, CornerClick] init) =
     [GoToPage ''page_confirm'', OpenOverlay, ClearSteps, HideError,
      SetStatus ''Running connection checks...'', Request (ConnectionCheck 1),
      CloseOverlay, GoToPage ''page_initializing'', ClearSteps, HideError,
      SetStatus ''Running connection checks...'', AddStepRow ''Joystick Controller'']"
  by code_simp

text \<open>
  Claim C4, amended. The label of the controller step is resolved from the controller mode
  when the reply of the check is processed, and is stored in the result as
  \<^verbatim>\<open>displayName\<close>. The replay shows the stored label: in a later state \<open>s'\<close> that holds the
  stored result of a check processed in state \<open>s\<close>, the first row revealed carries the label
  for the controller mode of \<open>s\<close>, whatever the controller mode of \<open>s'\<close> is.
\<close>

theorem controller_label_fixed_at_check:
  assumes "find_step data ''Joystick/Gesture'' = Some st"
    and "initStoredResults s' =
           initStoredResults (settle 0 (CheckData data) (runConnectionCheckAndStart d True s))"
  shows "log (showStoredInitResultsSequentially s') =
           log s' @ [ClearSteps, HideError, SetStatus ''Running connection checks...'',
                     AddStepRow (if controllerMode s = Joystick then ''Joystick Controller''
                                 else ''Hand Gesture Controller'')]"
proof -
  have "initStoredResults s' =
          Some \<lparr> results = collect (controllerMode s) data (order (selectedGameId s)),
                 success = truthy (data_success data) \<rparr>"
    using assms(2) check_cycle [of data True s d] by simp
  moreover have "collect (controllerMode s) data (order (selectedGameId s)) =
      mk_result (controllerMode s) ''Joystick/Gesture'' st #
      collect (controllerMode s) data (tl (order (selectedGameId s)))"
    using assms(1) by (simp add: order_def base_def)
  ultimately show ?thesis
    by (simp add: showStoredInitResultsSequentially_def mk_result_def label_def)
qed

theorem controller_label_fixed_at_check_witness:
  "controllerMode
     (toggleController (settle 0 (CheckData reply_all_ok)
        (runConnectionCheckAndStart 0 True (toggleController (cardClick (GNum 1) init))))) =
     Joystick \<and>
   log (showStoredInitResultsSequentially
         (toggleController (settle 0 (CheckData reply_all_ok)
            (runConnectionCheckAndStart 0 True (toggleController (cardClick (GNum 1) init)))))) =
     [GoToPage ''page_confirm'', ClearSteps, HideError,
      SetStatus ''Running connection checks...'', Request (ConnectionCheck 1),
      ClearSteps, HideError, SetStatus ''Running connection checks...'',
      AddStepRow ''Hand Gesture Controller'']"
proof -
  let ?s = "toggleController (cardClick (GNum 1) init)"
  let ?s' = "toggleController (settle 0 (CheckData reply_all_ok)
               (runConnectionCheckAndStart 0 True ?s))"
  have f: "find_step reply_all_ok ''Joystick/Gesture'' =
             Some \<lparr>step_name = ''Joystick/Gesture'', step_ok = JBool True, step_message = None\<rparr>"
    by (simp add: find_step_def reply_all_ok_def)
  have e: "initStoredResults ?s' =
             initStoredResults (settle 0 (CheckData reply_all_ok)
               (runConnectionCheckAndStart 0 True ?s))"
    by (simp add: toggleController_def)
  have l: "log ?s' = [GoToPage ''page_confirm'', ClearSteps, HideError,
      SetStatus ''Running connection checks...'', Request (ConnectionCheck 1)]"
    by code_simp
  have m: "controllerMode ?s = Gesture" "controllerMode ?s' = Joystick"
    by code_simp+
  show ?thesis
    using controller_label_fixed_at_check [OF f e] l m by simp
qed

section \<open>Replay of the stored result\<close>

text \<open>
  Claim C6. Replaying a stored result, with its timers elapsing one after the other, adds
  and marks one row per stored step, in the stored order and with the stored label,
  outcome and message, then shows the final status. It sends no request, and it depends
  on nothing but the stored result: neither on the rest of the state nor on when the
  result was stored. (By \<open>check_cycle\<close>, the stored steps are the entries built from the
  reply, and a check in immediate mode shows the rows of the same list.)
\<close>

theorem replay_reproduces_recorded_rows:
  assumes "initStoredResults s' = Some st"
  shows "log (run (replicate (2 * length (results st)) (Settle 0 Elapsed))
                (showStoredInitResultsSequentially s')) =
           log s' @ [ClearSteps, HideError, SetStatus ''Running connection checks...''] @
             rows (results st) @
             (if success st then [SetStatus ''Connection OK. Preparing game...'']
              else [SetStatus ''Initialisation failed.'', ShowError]) \<and>
         pending (run (replicate (2 * length (results st)) (Settle 0 Elapsed))
                    (showStoredInitResultsSequentially s')) = pending s' \<and>
         Request q \<notin> set (drop (length (log s'))
           (log (run (replicate (2 * length (results st)) (Settle 0 Elapsed))
                   (showStoredInitResultsSequentially s'))))"
  using assms
  by (auto simp add: showStoredInitResultsSequentially_def displayNext_run rows_def)

theorem replay_reproduces_recorded_rows_witness:
  "log (run (replicate 6 (Settle 0 Elapsed))
          (showStoredInitResultsSequentially
            (run [CardClick (GNum 1), ConfirmClick, Settle 0 (CheckData reply_car_failed)] init))) =
     [GoToPage ''page_confirm'', OpenOverlay, ClearSteps, HideError,
      SetStatus ''Running connection checks...'', Request (ConnectionCheck 1),
      ClearSteps, HideError, SetStatus ''Running connection checks...'',
      AddStepRow ''Joystick Controller'', MarkRow ''Joystick Controller'' True [],
      AddStepRow ''Nodes'', MarkRow ''Nodes'' True [],
      AddStepRow ''Drone'', MarkRow ''Drone'' True [],
      SetStatus ''Initialisation failed.'', ShowError]"
proof -
  let ?s' = "run [CardClick (GNum 1), ConfirmClick, Settle 0 (CheckData reply_car_failed)] init"
  let ?st = "\<lparr> results = [\<lparr>displayName = ''Joystick Controller'', ok = True, message = []\<rparr>,
                      \<lparr>displayName = ''Nodes'', ok = True, message = []\<rparr>,
                      \<lparr>displayName = ''Drone'', ok = True, message = []\<rparr>],
          success = False \<rparr>"
  have h: "initStoredResults ?s' = Some ?st"
    by code_simp
  have l: "log ?s' = [GoToPage ''page_confirm'', OpenOverlay, ClearSteps, HideError,
      SetStatus ''Running connection checks...'', Request (ConnectionCheck 1)]"
    by code_simp
  show ?thesis
    using replay_reproduces_recorded_rows [OF h] l by simp
qed

section \<open>A failed network call\<close>

lemma pollers_settle:
  assumes "\<not> initReady s" and "set (pending s) \<subseteq> {WaitReady, MaybeStart}"
  shows "\<not> initReady (settle i out s) \<and> set (pending (settle i out s)) = set (pending s) \<and>
         initStoredResults (settle i out s) = initStoredResults s \<and>
         log (settle i out s) = log s"
proof (cases "i < length (pending s)")
  case False
  then show ?thesis using assms by (simp add: settle_def)
next
  case True
  let ?t = "pending s ! i"
  let ?s0 = "s\<lparr>pending := take i (pending s) @ drop (Suc i) (pending s)\<rparr>"
  have t: "?t = WaitReady \<or> ?t = MaybeStart"
    using True assms(2) nth_mem by fastforce
  have st: "set (pending s) = insert ?t (set (take i (pending s) @ drop (Suc i) (pending s)))"
    using True id_take_nth_drop [of i "pending s"]
    by (metis Un_insert_right list.simps(15) set_append)
  show ?thesis
  proof (cases "out = Elapsed")
    case False
    then have "resume ?t out ?s0 = None"
      using t by (cases out) auto
    then show ?thesis using True assms by (simp add: settle_def)
  next
    case e: True
    have "resume ?t out ?s0 = Some (spawn ?t ?s0)"
      using t e assms(1) by (auto simp add: waitReady_def maybeStart_def)
    then have "settle i out s = spawn ?t ?s0"
      using True by (simp add: settle_def)
    then show ?thesis using assms(1) st by simp
  qed
qed

lemma pollers_run:
  assumes "\<not> initReady s" and "set (pending s) \<subseteq> {WaitReady, MaybeStart}"
  shows "\<not> initReady (run (map (\<lambda>(i, out). Settle i out) ios) s) \<and>
         set (pending (run (map (\<lambda>(i, out). Settle i out) ios) s)) = set (pending s) \<and>
         initStoredResults (run (map (\<lambda>(i, out). Settle i out) ios) s) = initStoredResults s \<and>
         log (run (map (\<lambda>(i, out). Settle i out) ios) s) = log s"
  using assms
proof (induction ios arbitrary: s)
  case Nil
  then show ?case by simp
next
  case (Cons io ios)
  obtain i out where io: "io = (i, out)" by (cases io)
  have p: "\<not> initReady (settle i out s) \<and> set (pending (settle i out s)) = set (pending s) \<and>
         initStoredResults (settle i out s) = initStoredResults s \<and>
         log (settle i out s) = log s"
    using pollers_settle [OF Cons.prems] .
  then have "set (pending (settle i out s)) \<subseteq> {WaitReady, MaybeStart}"
    using Cons.prems(2) by simp
  with p Cons.IH [of "settle i out s"] show ?case
    by (simp add: io)
qed

text \<open>
  Claim C1. When the request to the connectivity-check endpoint rejects, no result is
  stored and the error banner is shown; the claim adds that \<^verbatim>\<open>__initReady\<close> still becomes
  true, so that the loops polling it end. The script does not do that: its \<^verbatim>\<open>catch\<close> block
  leaves \<^verbatim>\<open>__initReady\<close> as it is. After a background check that rejects and the click
  that proceeds from the preview, however many timers elapse and in whatever order,
  \<^verbatim>\<open>__initReady\<close> stays false, no result is stored, both polling loops are still
  outstanding and nothing more is shown.
\<close>

theorem network_failure_never_ready:
  "initReady (settle 0 Rejected (runConnectionCheckAndStart d skip s)) = initReady s \<and>
   initStoredResults (settle 0 Rejected (runConnectionCheckAndStart d skip s)) =
     initStoredResults s \<and>
   \<not> initReady (run (map (\<lambda>(i, out). Settle i out) ios)
       (run [CardClick (GNum 1), ConfirmClick, Settle 0 Rejected, VideoEnded, CornerClick] init)) \<and>
   initStoredResults (run (map (\<lambda>(i, out). Settle i out) ios)
       (run [CardClick (GNum 1), ConfirmClick, Settle 0 Rejected, VideoEnded, CornerClick] init)) = None \<and>
   set (pending (run (map (\<lambda>(i, out). Settle i out) ios)
       (run [CardClick (GNum 1), ConfirmClick, Settle 0 Rejected, VideoEnded, CornerClick] init))) =
     {WaitReady, MaybeStart} \<and>
   log (run (map (\<lambda>(i, out). Settle i out) ios)
       (run [CardClick (GNum 1), ConfirmClick, Settle 0 Rejected, VideoEnded, CornerClick] init)) =
     [GoToPage ''page_confirm'', OpenOverlay, ClearSteps, HideError,
      SetStatus ''Running connection checks...'', Request (ConnectionCheck 1),
      SetStatus ''Unexpected error during initialisation.'', ShowError,
      CloseOverlay, GoToPage ''page_initializing'']"
proof -
  let ?s = "run [CardClick (GNum 1), ConfirmClick, Settle 0 Rejected, VideoEnded, CornerClick] init"
  have r: "\<not> initReady ?s" by code_simp
  have p: "pending ?s = [MaybeStart, WaitReady]" by code_simp
  have n: "initStoredResults ?s = None" by code_simp
  have l: "log ?s = [GoToPage ''page_confirm'', OpenOverlay, ClearSteps, HideError,
      SetStatus ''Running connection checks...'', Request (ConnectionCheck 1),
      SetStatus ''Unexpected error during initialisation.'', ShowError,
      CloseOverlay, GoToPage ''page_initializing'']" by code_simp
  have q: "set (pending ?s) \<subseteq> {WaitReady, MaybeStart}" using p by simp
  have c: "initReady (settle 0 Rejected (runConnectionCheckAndStart d skip s)) = initReady s \<and>
           initStoredResults (settle 0 Rejected (runConnectionCheckAndStart d skip s)) =
             initStoredResults s"
    by (simp add: runConnectionCheckAndStart_def init_catch_def)
  show ?thesis
    using pollers_run [OF r q, of ios] p n l c by auto
qed

section \<open>How often the game is launched\<close>

text \<open>
  Every launch sequence is paid for by one click that proceeds from the preview or by one
  retry: the settling of a task never raises \<open>credit\<close>, and of the user actions only
  those two raise it, by one.
\<close>

lemma credit_emit [simp]:
  "credit (emit a s) =
     credit s + (case a of Request (WriteRfidToken t) \<Rightarrow> 1 | _ \<Rightarrow> 0)"
  by (simp add: credit_def launches_def emit_def split: action.splits request.splits)

lemma credit_spawn [simp]: "credit (spawn t s) = credit s + may_launch t"
  by (simp add: credit_def launches_def spawn_def)

lemma credit_flags [simp]:
  "credit (s\<lparr>initStarted := a\<rparr>) = credit s"
  "credit (s\<lparr>initReady := b\<rparr>) = credit s"
  "credit (s\<lparr>initSuccess := c\<rparr>) = credit s"
  "credit (s\<lparr>initStoredResults := d\<rparr>) = credit s"
  "credit (s\<lparr>selectedGameId := g\<rparr>) = credit s"
  "credit (s\<lparr>rfidTag := tg\<rparr>) = credit s"
  "credit (s\<lparr>controllerMode := m\<rparr>) = credit s"
  "credit (s\<lparr>cornerListener := e\<rparr>) = credit s"
  "credit (s\<lparr>cornerEnabled := f\<rparr>) = credit s"
  by (simp_all add: credit_def launches_def)

lemma credit_begin_launch [simp]: "credit (begin_launch s) = Suc (credit s)"
  by (simp add: begin_launch_def)

lemma credit_finish: "credit (finish d skip data rs s) \<le> credit s + (if skip then 0 else 1)"
  by (simp add: finish_def Let_def)

lemma credit_check_loop:
  "credit (check_loop d skip data ns rs s) \<le> credit s + (if skip then 0 else 1)"
proof (induction ns arbitrary: rs s)
  case Nil
  then show ?case using credit_finish [of d skip data rs s] by simp
next
  case (Cons n ns)
  show ?case
  proof (cases "find_step data n")
    case None
    then show ?thesis using Cons.IH [where rs = rs and s = s] by simp
  next
    case (Some st)
    show ?thesis
    proof (cases skip)
      case True
      then show ?thesis
        using Some Cons.IH [where rs = "rs @ [mk_result (controllerMode s) n st]" and s = s]
        by (simp add: Let_def)
    next
      case False
      then show ?thesis using Some by (simp add: Let_def)
    qed
  qed
qed

lemma credit_displayNext [simp]: "credit (displayNext rs succ s) = credit s"
  by (cases rs) simp_all

lemma credit_showStored [simp]: "credit (showStoredInitResultsSequentially s) = credit s"
  by (simp add: showStoredInitResultsSequentially_def split: option.splits)

lemma credit_waitReady [simp]: "credit (waitReady s) = credit s"
  by (simp add: waitReady_def)

lemma credit_maybeStart: "credit (maybeStart s) \<le> Suc (credit s)"
  by (simp add: maybeStart_def)

lemma credit_resume:
  "resume t out s = Some s' \<Longrightarrow> credit s' \<le> credit s + may_launch t"
proof (cases t)
  case (CheckFetch d skip)
  assume "resume t out s = Some s'"
  then show ?thesis
    using CheckFetch credit_check_loop [of d skip _ "order (selectedGameId s)" "[]" s]
    by (cases out) (auto simp add: on_check_reply_def init_catch_def)
next
  case (StepPause d data ns rs r)
  assume "resume t out s = Some s'"
  then show ?thesis
    using StepPause
      credit_check_loop [of d False data ns rs "emit (MarkRow (displayName r) (ok r) (message r)) s"]
    by (cases out) (auto simp add: on_step_pause_def)
next
  case MaybeStart
  assume "resume t out s = Some s'"
  then show ?thesis
    using MaybeStart credit_maybeStart [of s] by (cases out) auto
qed (cases out; auto simp add: request_start_def launch_catch_def on_start_reply_def)+

lemma sum_list_without:
  "i < length xs \<Longrightarrow>
   sum_list (map f xs) = f (xs ! i) + sum_list (map f (take i xs @ drop (Suc i) xs))"
  for f :: "'a \<Rightarrow> nat"
proof -
  assume "i < length xs"
  then have "xs = take i xs @ xs ! i # drop (Suc i) xs"
    by (rule id_take_nth_drop)
  then have "sum_list (map f xs) = sum_list (map f (take i xs @ xs ! i # drop (Suc i) xs))"
    by simp
  then show ?thesis by simp
qed

lemma credit_settle: "credit (settle i out s) \<le> credit s"
proof (cases "i < length (pending s)")
  case False
  then show ?thesis by (simp add: settle_def)
next
  case True
  let ?s0 = "s\<lparr>pending := take i (pending s) @ drop (Suc i) (pending s)\<rparr>"
  have c: "credit s = credit ?s0 + may_launch (pending s ! i)"
    using sum_list_without [OF True, of may_launch]
    by (simp add: credit_def launches_def)
  show ?thesis
  proof (cases "resume (pending s ! i) out ?s0")
    case None
    then show ?thesis using True by (simp add: settle_def)
  next
    case (Some s')
    then show ?thesis using True c credit_resume [OF Some] by (simp add: settle_def)
  qed
qed

lemma credit_step:
  "credit (step e s) \<le> credit s + (if starts_launch_path e then 1 else 0)"
proof (cases e)
  case CornerClick
  then show ?thesis
    using credit_maybeStart
      [of "waitReady (emit (GoToPage ''page_initializing'')
             (emit CloseOverlay (s\<lparr>cornerListener := False\<rparr>)))"]
    by (simp add: proceedAfterPreview_def)
next
  case (Settle i out)
  then show ?thesis using credit_settle [of i out s] by simp
qed (simp_all add: cardClick_def openOverlay_def runConnectionCheckAndStart_def
       retryConnectionCheck_def toggleController_def Let_def)

lemma credit_run:
  "credit (run es s) \<le> credit s + length (filter starts_launch_path es)"
proof (induction es arbitrary: s)
  case Nil
  then show ?case by simp
next
  case (Cons e es)
  have "credit (run (e # es) s) \<le> credit (step e s) + length (filter starts_launch_path es)"
    using Cons.IH [of "step e s"] by simp
  also have "\<dots> \<le> credit s + (if starts_launch_path e then 1 else 0)
                     + length (filter starts_launch_path es)"
    using credit_step [of e s] by simp
  finally show ?case by (simp split: if_splits)
qed

lemma launches_bounded:
  "launches (run es init) \<le> length (filter starts_launch_path es)"
proof -
  have "launches (run es init) \<le> credit (run es init)"
    by (simp add: credit_def)
  also have "\<dots> \<le> credit init + length (filter starts_launch_path es)"
    by (rule credit_run)
  also have "credit init = 0"
    by (simp add: credit_def launches_def init_def)
  finally show ?thesis by simp
qed

text \<open>The session \<open>double_launch_trace\<close>, stage by stage, and everything it does.\<close>

lemma double_launch_trace_stages:
  "pending (run (take 6 double_launch_trace) init) = [MaybeStart, WaitReady]"
  "\<not> initReady (run (take 20 double_launch_trace) init)"
  "pending (run (take 21 double_launch_trace) init) = [StartDelay 3000, MaybeStart, WaitReady]"
  "initReady (run (take 21 double_launch_trace) init)"
  "initSuccess (run (take 21 double_launch_trace) init)"
  "pending (run (take 29 double_launch_trace) init) = [LaunchTimer, StartDelay 3000]"
  "pending (run (take 32 double_launch_trace) init) = [LaunchTimer]"
  by code_simp+

lemma double_launch_trace_log:
  "log (run double_launch_trace init) =
     [GoToPage ''page_confirm'', OpenOverlay, ClearSteps, HideError,
      SetStatus ''Running connection checks...'', Request (ConnectionCheck 1),
      SetStatus ''Unexpected error during initialisation.'', ShowError,
      CloseOverlay, GoToPage ''page_initializing'', HideError, ClearSteps,
      HideError, SetStatus ''Running connection checks...'',
      Request (ConnectionCheck 1), AddStepRow ''Joystick Controller'',
      MarkRow ''Joystick Controller'' True [], AddStepRow ''Nodes'',
      MarkRow ''Nodes'' True [], AddStepRow ''Drone'',
      MarkRow ''Drone'' True [], SetStatus ''Connection OK. Preparing game...'',
      ClearSteps, HideError, SetStatus ''Running connection checks...'',
      AddStepRow ''Joystick Controller'',
      MarkRow ''Joystick Controller'' True [], AddStepRow ''Nodes'',
      MarkRow ''Nodes'' True [], AddStepRow ''Drone'',
      MarkRow ''Drone'' True [], SetStatus ''Connection OK. Preparing game...'',
      Request (WriteRfidToken ''T42''), Request (StartGame 1 1),
      SetStatus ''Game started. Good luck!'', CheckGameDone,
      Request (WriteRfidToken ''T42''), Request (StartGame 1 1),
      SetStatus ''Game started. Good luck!'', CheckGameDone]"
  by code_simp

text \<open>
  Claim C3. The launch sequence is to run at most once for each check cycle. Within one
  click that proceeds from the preview it does (\<open>launches_bounded\<close>: only \<^verbatim>\<open>maybeStart\<close>
  launches, \<^verbatim>\<open>waitReady\<close> only replays). Across a retry it does not: the first check
  rejects, so the two polling loops started by the click stay outstanding; the retry then
  runs a check that succeeds, and both the retry itself and the polling loop
  \<^verbatim>\<open>maybeStart\<close> launch the game. The requests sent are two connectivity checks (the
  rejected one and the retry) and then the launch sequence twice.
\<close>

theorem retry_after_network_failure_launches_twice:
  "[q. Request q \<leftarrow> log (run double_launch_trace init)] =
     [ConnectionCheck 1, ConnectionCheck 1,
      WriteRfidToken ''T42'', StartGame 1 1, WriteRfidToken ''T42'', StartGame 1 1] \<and>
   pending (run double_launch_trace init) = []"
  by code_simp

section \<open>The guard on concurrent checks\<close>

lemma check_loop_initStarted [simp]:
  "initStarted (check_loop d skip data ns rs s) = initStarted s"
  by (induction ns arbitrary: rs s) (auto simp add: Let_def split: option.splits)

lemma displayNext_initStarted [simp]:
  "initStarted (displayNext rs succ s) = initStarted s"
  by (cases rs) simp_all

lemma resume_initStarted:
  "resume t out s = Some s' \<Longrightarrow> initStarted s' = initStarted s"
  by (cases t; cases out)
     (auto simp add: on_check_reply_def init_catch_def on_step_pause_def request_start_def
        launch_catch_def on_start_reply_def waitReady_def maybeStart_def
        showStoredInitResultsSequentially_def split: option.splits if_splits)

lemma settle_initStarted [simp]: "initStarted (settle i out s) = initStarted s"
  using resume_initStarted
    [of "pending s ! i" out "s\<lparr>pending := take i (pending s) @ drop (Suc i) (pending s)\<rparr>"]
  by (auto simp add: settle_def split: option.splits)

lemma run_settles_initStarted [simp]:
  "initStarted (run (map (\<lambda>(i, out). Settle i out) ios) s) = initStarted s"
  by (induction ios arbitrary: s) (simp_all add: case_prod_beta)

text \<open>
  Claim C10. After a retry \<^verbatim>\<open>__initStarted\<close> is false, and it stays false however the tasks
  of the retry's check cycle (and any other outstanding task) settle. Opening the preview
  overlay in such a state therefore starts another check in the background; right after
  the retry, the two checks are outstanding together. Of all events, only opening the
  overlay sets \<^verbatim>\<open>__initStarted\<close> to true; a card click and a retry set it to false and every
  other event leaves it as it is.
\<close>

theorem retry_leaves_guard_open:
  "\<not> initStarted (run (map (\<lambda>(i, out). Settle i out) ios) (retryConnectionCheck s)) \<and>
   pending (openOverlay (run (map (\<lambda>(i, out). Settle i out) ios) (retryConnectionCheck s))) =
     CheckFetch 0 True # pending (run (map (\<lambda>(i, out). Settle i out) ios) (retryConnectionCheck s)) \<and>
   pending (openOverlay (retryConnectionCheck s)) =
     CheckFetch 0 True # CheckFetch 3000 False # pending s \<and>
   initStarted (step e s) =
     (case e of ConfirmClick \<Rightarrow> True | CardClick g \<Rightarrow> False | RetryClick \<Rightarrow> False
      | _ \<Rightarrow> initStarted s)"
proof -
  have a: "\<not> initStarted (retryConnectionCheck s)"
    by (simp add: retryConnectionCheck_def runConnectionCheckAndStart_def)
  have b: "pending (retryConnectionCheck s) = CheckFetch 3000 False # pending s"
    by (simp add: retryConnectionCheck_def runConnectionCheckAndStart_def)
  have c: "\<not> initStarted t \<Longrightarrow> pending (openOverlay t) = CheckFetch 0 True # pending t" for t
    by (simp add: openOverlay_def runConnectionCheckAndStart_def Let_def)
  have d: "initStarted (step e s) =
     (case e of ConfirmClick \<Rightarrow> True | CardClick g \<Rightarrow> False | RetryClick \<Rightarrow> False
      | _ \<Rightarrow> initStarted s)"
    by (cases e)
       (simp_all add: openOverlay_def runConnectionCheckAndStart_def Let_def cardClick_def
          retryConnectionCheck_def proceedAfterPreview_def waitReady_def maybeStart_def
          showStoredInitResultsSequentially_def toggleController_def split: option.splits)
  show ?thesis using a b c d by simp
qed

end
